theory Spec2Isabelle
  imports Main "HOL-Library.Sublist"
begin

section \<open>helper.py: reading a cleaned environment variable\<close>

text \<open>
  A Python \<open>str\<close> is a sequence of Unicode code points, so the strings of
  \<open>helper.py\<close> are lists of code points. The process environment is a partial map
  from variable names to values: \<open>os.getenv(name)\<close> gives \<open>None\<close> exactly for a
  name outside its domain.
\<close>

type_synonym pystr = "nat list"

type_synonym environ = "pystr \<rightharpoonup> pystr"

definition py_isspace :: "nat \<Rightarrow> bool" where
  \<comment> \<open>the code points that \<open>str.strip()\<close> removes when called without an argument
      (CPython's whitespace table)\<close>
  "py_isspace c \<longleftrightarrow>
     (0x09 \<le> c \<and> c \<le> 0x0D) \<or> (0x1C \<le> c \<and> c \<le> 0x20) \<or> c = 0x85 \<or> c = 0xA0 \<or>
     c = 0x1680 \<or> (0x2000 \<le> c \<and> c \<le> 0x200A) \<or> c = 0x2028 \<or> c = 0x2029 \<or>
     c = 0x202F \<or> c = 0x205F \<or> c = 0x3000"

definition py_lstrip :: "(nat \<Rightarrow> bool) \<Rightarrow> pystr \<Rightarrow> pystr" where
  "py_lstrip chars s = dropWhile chars s"

definition py_rstrip :: "(nat \<Rightarrow> bool) \<Rightarrow> pystr \<Rightarrow> pystr" where
  "py_rstrip chars s = rev (dropWhile chars (rev s))"

definition strip :: "pystr \<Rightarrow> pystr" where
  \<comment> \<open>\<open>value.strip()\<close>\<close>
  "strip s = py_rstrip py_isspace (py_lstrip py_isspace s)"

definition comma :: nat where
  "comma = 0x2C"

definition rstrip_comma :: "pystr \<Rightarrow> pystr" where
  \<comment> \<open>\<open>value.rstrip(',')\<close>\<close>
  "rstrip_comma s = py_rstrip (\<lambda>c. c = comma) s"

definition get_env_var :: "environ \<Rightarrow> pystr \<Rightarrow> pystr option" where
  "get_env_var env env_variable =
     (case env env_variable of
        None \<Rightarrow> None
      | Some v \<Rightarrow> Some (rstrip_comma (strip v)))"

definition ends_with_comma :: "pystr \<Rightarrow> bool" where
  "ends_with_comma s \<longleftrightarrow> s \<noteq> [] \<and> last s = comma"

definition demo_environ :: environ where
  \<comment> \<open>\<open>API_BASE_URL="  a,b ,, \n"\<close>, nothing else set\<close>
  "demo_environ = [map of_char ''API_BASE_URL'' \<mapsto> map of_char ''  a,b ,, '' @ [0x0A]]"

section \<open>haystack\_lib.py: the timing wrapper\<close>

text \<open>
  \<open>TimedComponent\<close> holds the wrapped component and the name of its class. The wrapped
  component is any object with a \<open>run\<close> method: a function from the keyword arguments
  and the component's own state to a result or a raised exception, and the state it
  leaves. The two readings of \<open>time.time()\<close> come from outside and are inputs of the
  model; the line printed is kept as a value holding the name and both readings.
\<close>

record ('kw, 's, 'e, 'r) TimedComponent =
  component :: "'kw \<Rightarrow> 's \<Rightarrow> ('e + 'r) \<times> 's"
  name :: string

datatype 't printed = Took string 't 't

definition TimedComponent_run ::
  "('kw, 's, 'e, 'r) TimedComponent \<Rightarrow> 't \<Rightarrow> 't \<Rightarrow> 'kw \<Rightarrow> 's \<Rightarrow>
     (('e + 'r) \<times> 's) \<times> 't printed list" where
  "TimedComponent_run self start end' kwargs s =
     (case component self kwargs s of
        (Inl exn, s') \<Rightarrow> ((Inl exn, s'), [])
      | (Inr result, s') \<Rightarrow> ((Inr result, s'), [Took (name self) start end']))"

section \<open>haystack\_lib.py: the Hacker News fetcher\<close>

subsection \<open>Values, exceptions and what the outside world answers\<close>

text \<open>
  What \<open>response.json()\<close> decodes to. A decoded object is a Python \<open>dict\<close>, kept as
  an association list read with \<open>map_of\<close>. Numbers that are not integers behave like
  \<open>JNum\<close> everywhere in this code (they are never containers), so integers stand for
  all of them.
\<close>

datatype json =
  JNull | JBool bool | JNum int | JStr string | JArr "json list" | JObj "(string \<times> json) list"

datatype exn = TypeError | KeyError | IndexError | Raised string

record Document =
  content :: json
  meta :: "(string \<times> json) list"

type_synonym pipeline_output = "(string \<times> (string \<times> Document list) list) list"

text \<open>
  The collaborators of \<open>HackernewsNewestFetcher.run\<close>, none of them in this repository:
  \<^item> \<open>topstories\<close>: what \<open>requests.get(".../topstories.json").json()\<close> is when the
    loop header walks over it: the exception raised on the way (by the request, by the
    decoding, or by slicing a body that is no sequence), or the sequence of identifiers.
  \<^item> \<open>item\<close>: for an identifier, what the request of its story record and
    \<open>post.json()\<close> give: the exception raised by either, or the decoded body.
  \<^item> \<open>html_pipeline\<close>: what \<open>self.html_pipeline.run\<close> gives for a URL: an exception
    or the outputs of the pipeline's components.
  \<^item> \<open>Document_refuses\<close>: whether the constructor of \<open>Document\<close> raises on a content
    and a metadata mapping.
\<close>

record upstream =
  topstories :: "exn + json list"
  item :: "json \<Rightarrow> exn + json"
  html_pipeline :: "json \<Rightarrow> exn + pipeline_output"
  Document_refuses :: "json \<Rightarrow> (string \<times> json) list \<Rightarrow> exn option"

text \<open>What the run does to the outside, in order: the requests it sends and the lines it prints.\<close>

datatype event =
    GetTopstories
  | GetItem json
  | RunPipeline json
  | PrintTextIn json
  | PrintSkipped json

subsection \<open>The Python operations the loop uses\<close>

definition py_slice_to :: "'a list \<Rightarrow> int \<Rightarrow> 'a list" where
  \<comment> \<open>\<open>xs[0:k]\<close>: a negative \<open>k\<close> counts from the end\<close>
  "py_slice_to xs k =
     (if k < 0 then take (nat (int (length xs) + k)) xs else take (nat k) xs)"

definition py_in :: "string \<Rightarrow> json \<Rightarrow> exn + bool" where
  \<comment> \<open>\<open>key in value\<close> for a string \<open>key\<close>: a key of a dict, an element of a list,
      a substring of a string; anything else is not iterable\<close>
  "py_in k v =
     (case v of
        JObj kvs \<Rightarrow> Inr (map_of kvs k \<noteq> None)
      | JArr xs \<Rightarrow> Inr (JStr k \<in> set xs)
      | JStr s \<Rightarrow> Inr (sublist k s)
      | _ \<Rightarrow> Inl TypeError)"

definition py_getitem :: "json \<Rightarrow> string \<Rightarrow> exn + json" where
  \<comment> \<open>\<open>value[key]\<close> for a string \<open>key\<close>\<close>
  "py_getitem v k =
     (case v of
        JObj kvs \<Rightarrow> (case map_of kvs k of None \<Rightarrow> Inl KeyError | Some x \<Rightarrow> Inr x)
      | _ \<Rightarrow> Inl TypeError)"

definition Document_init :: "upstream \<Rightarrow> json \<Rightarrow> (string \<times> json) list \<Rightarrow> exn + Document" where
  \<comment> \<open>Modelled from the spec: the constructor of the framework's \<open>Document\<close>, which is
      not part of this repository. It accepts a content and a metadata mapping and keeps
      both; whatever it raises comes from the collaborator.\<close>
  "Document_init w c m =
     (case Document_refuses w c m of
        Some e \<Rightarrow> Inl e
      | None \<Rightarrow> Inr \<lparr>content = c, meta = m\<rparr>)"

subsection \<open>HackernewsNewestFetcher.run\<close>

definition fetch_and_convert :: "upstream \<Rightarrow> json \<Rightarrow> event list \<times> (exn + Document)" where
  \<comment> \<open>the body of the first \<open>try\<close>: run the sub-pipeline on the record's URL and take
      \<open>article["converter"]["documents"][0]\<close>\<close>
  "fetch_and_convert w post =
     (case py_getitem post ''url'' of
        Inl e \<Rightarrow> ([], Inl e)
      | Inr u \<Rightarrow>
          ([RunPipeline u],
           (case html_pipeline w u of
              Inl e \<Rightarrow> Inl e
            | Inr article \<Rightarrow>
                (case map_of article ''converter'' of
                   None \<Rightarrow> Inl KeyError
                 | Some conv \<Rightarrow>
                     (case map_of conv ''documents'' of
                        None \<Rightarrow> Inl KeyError
                      | Some [] \<Rightarrow> Inl IndexError
                      | Some (d # _) \<Rightarrow> Inr d)))))"

definition inline_document :: "upstream \<Rightarrow> json \<Rightarrow> exn + Document" where
  \<comment> \<open>the body of the second \<open>try\<close>:
      \<open>Document(content=post.json()["text"], meta={"title": post.json()["title"]})\<close>\<close>
  "inline_document w post =
     (case py_getitem post ''text'' of
        Inl e \<Rightarrow> Inl e
      | Inr t \<Rightarrow>
          (case py_getitem post ''title'' of
             Inl e \<Rightarrow> Inl e
           | Inr ti \<Rightarrow> Document_init w t [(''title'', ti)]))"

definition run_story :: "upstream \<Rightarrow> json \<Rightarrow> event list \<times> (exn + Document list)" where
  \<comment> \<open>one pass of the loop body for the identifier \<open>id'\<close>: what it does to the outside,
      and either the exception that leaves the loop or the documents it appends\<close>
  "run_story w id' =
     (case item w id' of
        Inl e \<Rightarrow> ([GetItem id'], Inl e)
      | Inr post \<Rightarrow>
          (case py_in ''url'' post of
             Inl e \<Rightarrow> ([GetItem id'], Inl e)
           | Inr has_url \<Rightarrow>
               if has_url then
                 (case fetch_and_convert w post of
                    (evs, Inr d) \<Rightarrow> (GetItem id' # evs, Inr [d])
                  | (evs, Inl _) \<Rightarrow> (GetItem id' # evs @ [PrintSkipped id'], Inr []))
               else
                 (case py_in ''text'' post of
                    Inl e \<Rightarrow> ([GetItem id'], Inl e)
                  | Inr has_text \<Rightarrow>
                      if has_text then
                        (case inline_document w post of
                           Inr d \<Rightarrow> ([GetItem id', PrintTextIn id'], Inr [d])
                         | Inl _ \<Rightarrow> ([GetItem id', PrintTextIn id', PrintSkipped id'], Inr []))
                      else ([GetItem id'], Inr []))))"

fun run_loop ::
  "upstream \<Rightarrow> json list \<Rightarrow> event list \<Rightarrow> Document list \<Rightarrow> event list \<times> (exn + Document list)" where
  "run_loop w [] trace articles = (trace, Inr articles)"
| "run_loop w (id' # ids) trace articles =
     (case run_story w id' of
        (evs, Inl e) \<Rightarrow> (trace @ evs, Inl e)
      | (evs, Inr ds) \<Rightarrow> run_loop w ids (trace @ evs) (articles @ ds))"

definition HackernewsNewestFetcher_run :: "upstream \<Rightarrow> int \<Rightarrow> event list \<times> (exn + Document list)" where
  "HackernewsNewestFetcher_run w top_k =
     (case topstories w of
        Inl e \<Rightarrow> ([GetTopstories], Inl e)
      | Inr trending_list \<Rightarrow> run_loop w (py_slice_to trending_list top_k) [GetTopstories] [])"

subsection \<open>Reading a trace\<close>

fun item_requests :: "event list \<Rightarrow> json list" where
  "item_requests [] = []"
| "item_requests (GetItem i # es) = i # item_requests es"
| "item_requests (_ # es) = item_requests es"

definition story_documents :: "upstream \<Rightarrow> json \<Rightarrow> Document list" where
  \<comment> \<open>the documents one pass of the loop body appends for an identifier\<close>
  "story_documents w i = (case snd (run_story w i) of Inl _ \<Rightarrow> [] | Inr ds \<Rightarrow> ds)"


subsection \<open>Example upstreams\<close>

definition text_story :: "string \<Rightarrow> string \<Rightarrow> json" where
  "text_story title body = JObj [(''title'', JStr title), (''text'', JStr body)]"

definition url_story :: "string \<Rightarrow> string \<Rightarrow> json" where
  "url_story title url = JObj [(''title'', JStr title), (''url'', JStr url)]"

definition converted :: "Document \<Rightarrow> pipeline_output" where
  "converted d = [(''fetcher'', []), (''converter'', [(''documents'', [d])])]"

definition text_world :: upstream where
  "text_world = \<lparr>
     topstories = Inr [JNum 101, JNum 102, JNum 103],
     item = (\<lambda>i. if i = JNum 101 then Inr (text_story ''first'' ''alpha'')
                 else if i = JNum 102 then Inr (text_story ''second'' ''beta'')
                 else Inr (text_story ''third'' ''gamma'')),
     html_pipeline = (\<lambda>u. Inl (Raised ''PipelineRuntimeError'')),
     Document_refuses = (\<lambda>c m. None) \<rparr>"


definition rough_world :: upstream where
  "rough_world = \<lparr>
     topstories = Inr [JNum 101, JNum 102, JNum 103, JNum 104],
     item = (\<lambda>i. if i = JNum 101 then Inr (url_story ''first'' ''http://down.example'')
                 else if i = JNum 102 then Inr (JObj [(''text'', JStr ''untitled'')])
                 else if i = JNum 103 then Inr (url_story ''third'' ''http://empty.example'')
                 else Inr (text_story ''fourth'' ''delta'')),
     html_pipeline = (\<lambda>u. if u = JStr ''http://empty.example''
                          then Inr [(''converter'', [(''documents'', [])])]
                          else Inl (Raised ''PipelineRuntimeError'')),
     Document_refuses = (\<lambda>c m. None) \<rparr>"

definition flaky_world :: upstream where
  "flaky_world = \<lparr>
     topstories = Inr [JNum 201, JNum 202],
     item = (\<lambda>i. if i = JNum 201 then Inr (url_story ''down'' ''http://down.example'')
                 else Inr (url_story ''up'' ''http://up.example'')),
     html_pipeline = (\<lambda>u. if u = JStr ''http://up.example''
                          then Inr (converted \<lparr>content = JStr ''page text'', meta = [(''url'', u)]\<rparr>)
                          else Inl (Raised ''ConnectTimeout'')),
     Document_refuses = (\<lambda>c m. None) \<rparr>"

definition poll_world :: upstream where
  "poll_world = \<lparr>
     topstories = Inr [JNum 301],
     item = (\<lambda>i. Inr (JObj [(''title'', JStr ''a poll''), (''type'', JStr ''poll'')])),
     html_pipeline = (\<lambda>u. Inl (Raised ''PipelineRuntimeError'')),
     Document_refuses = (\<lambda>c m. None) \<rparr>"

section \<open>Properties of helper.py\<close>

lemma py_rstrip_no_trailing:
  "py_rstrip chars s = [] \<or> \<not> chars (last (py_rstrip chars s))"
proof (cases "dropWhile chars (rev s)")
  case Nil
  then show ?thesis by (simp add: py_rstrip_def)
next
  case (Cons x xs)
  then have "\<not> chars (hd (dropWhile chars (rev s)))"
    by (metis hd_dropWhile list.distinct(1))
  with Cons show ?thesis by (simp add: py_rstrip_def)
qed

text \<open>
  C10. \<open>get_env_var\<close> returns \<open>None\<close> exactly when the variable is unset. When it is
  set, the result is the value with whitespace stripped from both ends and then the
  trailing commas removed, and that result does not end with a comma.
\<close>

theorem get_env_var_cleaned:
  "(get_env_var env n = None \<longleftrightarrow> env n = None) \<and>
   (\<forall>v. env n = Some v \<longrightarrow>
      get_env_var env n = Some (rstrip_comma (strip v)) \<and>
      \<not> ends_with_comma (rstrip_comma (strip v)))"
proof -
  have "\<not> ends_with_comma (rstrip_comma s)" for s
    using py_rstrip_no_trailing [of "\<lambda>c. c = comma" s]
    by (auto simp: ends_with_comma_def rstrip_comma_def)
  then show ?thesis
    by (auto simp: get_env_var_def split: option.splits)
qed

theorem get_env_var_cleaned_witness:
  "demo_environ (map of_char ''API_BASE_URL'') = Some (map of_char ''  a,b ,, '' @ [0x0A]) \<and>
   get_env_var demo_environ (map of_char ''API_BASE_URL'') = Some (map of_char ''a,b '') \<and>
   \<not> ends_with_comma (map of_char ''a,b '') \<and>
   get_env_var demo_environ (map of_char ''MODEL_PHI'') = None"
proof -
  have v: "demo_environ (map of_char ''API_BASE_URL'') = Some (map of_char ''  a,b ,, '' @ [0x0A])"
    by (simp add: demo_environ_def)
  have c: "rstrip_comma (strip (map of_char ''  a,b ,, '' @ [0x0A])) = map of_char ''a,b ''"
    by (simp add: rstrip_comma_def strip_def py_rstrip_def py_lstrip_def py_isspace_def comma_def)
  have u: "demo_environ (map of_char ''MODEL_PHI'') = None"
    by (simp add: demo_environ_def)
  from get_env_var_cleaned [of demo_environ "map of_char ''API_BASE_URL''"] v c
    get_env_var_cleaned [of demo_environ "map of_char ''MODEL_PHI''"] u
  show ?thesis by simp
qed

section \<open>Properties of the timing wrapper\<close>

text \<open>
  C9. For every wrapped component and every keyword-argument mapping,
  \<open>TimedComponent.run\<close> gives exactly what the wrapped component's \<open>run\<close> gives on
  those arguments (the returned value or the raised exception, and the state the
  component is left in); the wrapper only adds the printed duration.
\<close>

theorem TimedComponent_run_transparent:
  "fst (TimedComponent_run self start end' kwargs s) = component self kwargs s"
  by (simp add: TimedComponent_run_def split: prod.splits sum.splits)

section \<open>Properties of the fetcher\<close>

subsection \<open>Traces and the loop\<close>

lemma item_requests_append: "item_requests (xs @ ys) = item_requests xs @ item_requests ys"
  by (induction xs rule: item_requests.induct) auto

lemma run_loop_append:
  "run_loop w (xs @ ys) tr arts =
     (case run_loop w xs tr arts of
        (tr', Inl e) \<Rightarrow> (tr', Inl e)
      | (tr', Inr arts') \<Rightarrow> run_loop w ys tr' arts')"
  by (induction xs arbitrary: tr arts) (auto split: prod.splits sum.splits)

lemma fetch_and_convert_requests:
  "item_requests (fst (fetch_and_convert w post)) = []"
  by (simp add: fetch_and_convert_def split: sum.split)

lemma run_story_requests: "item_requests (fst (run_story w i)) = [i]"
proof (cases "item w i")
  case (Inl e)
  then show ?thesis by (simp add: run_story_def)
next
  case (Inr post)
  have fc: "item_requests (fst (case fetch_and_convert w post of
                (evs, Inr d) \<Rightarrow> (GetItem i # evs, Inr [d])
              | (evs, Inl x) \<Rightarrow> (GetItem i # evs @ [PrintSkipped i], Inr []))) = [i]"
    using fetch_and_convert_requests [of w post]
    by (cases "fetch_and_convert w post") (simp add: item_requests_append split: sum.split)
  show ?thesis
    unfolding run_story_def Inr sum.case
    by (simp add: fc split: sum.split)
qed

lemma run_story_at_most_one: "snd (run_story w i) = Inr ds \<Longrightarrow> length ds \<le> 1"
  by (auto simp: run_story_def split: sum.splits prod.splits if_splits)

lemma story_documents_at_most_one: "length (story_documents w i) \<le> 1"
  using run_story_at_most_one [of w i]
  by (cases "snd (run_story w i)") (simp_all add: story_documents_def)

lemma run_loop_documents:
  "snd (run_loop w ids tr arts) = Inr ds \<Longrightarrow> ds = arts @ concat (map (story_documents w) ids)"
proof (induction ids arbitrary: tr arts)
  case Nil
  then show ?case by simp
next
  case (Cons i ids)
  obtain evs r where s: "run_story w i = (evs, r)" by (cases "run_story w i")
  show ?case
  proof (cases r)
    case (Inl e)
    with s Cons.prems show ?thesis by simp
  next
    case (Inr ds')
    with s Cons.prems have "snd (run_loop w ids (tr @ evs) (arts @ ds')) = Inr ds" by simp
    from Cons.IH[OF this] s Inr show ?thesis by (simp add: story_documents_def)
  qed
qed

lemma run_loop_requests_ok:
  "snd (run_loop w ids tr arts) = Inr ds \<Longrightarrow> item_requests (fst (run_loop w ids tr arts)) = item_requests tr @ ids"
proof (induction ids arbitrary: tr arts)
  case Nil
  then show ?case by simp
next
  case (Cons i ids)
  obtain evs r where s: "run_story w i = (evs, r)" by (cases "run_story w i")
  then have rq: "item_requests evs = [i]" using run_story_requests[of w i] by simp
  show ?case
  proof (cases r)
    case (Inl e)
    with s Cons.prems show ?thesis by simp
  next
    case (Inr ds')
    with s Cons.prems have "snd (run_loop w ids (tr @ evs) (arts @ ds')) = Inr ds" by simp
    from Cons.IH[OF this] s Inr rq show ?thesis by (simp add: item_requests_append)
  qed
qed

lemma run_loop_requests_prefix:
  "prefix (item_requests (fst (run_loop w ids tr arts))) (item_requests tr @ ids)"
proof (induction ids arbitrary: tr arts)
  case Nil
  then show ?case by simp
next
  case (Cons i ids)
  obtain evs r where s: "run_story w i = (evs, r)" by (cases "run_story w i")
  then have rq: "item_requests evs = [i]" using run_story_requests[of w i] by simp
  show ?case
  proof (cases r)
    case (Inl e)
    with s rq show ?thesis by (simp add: item_requests_append)
  next
    case (Inr ds')
    with s rq Cons.IH[of "tr @ evs" "arts @ ds'"] show ?thesis by (simp add: item_requests_append)
  qed
qed

lemma run_loop_length:
  "snd (run_loop w ids tr arts) = Inr ds \<Longrightarrow> length ds \<le> length arts + length ids"
proof (induction ids arbitrary: tr arts)
  case Nil
  then show ?case by simp
next
  case (Cons i ids)
  obtain evs r where s: "run_story w i = (evs, r)" by (cases "run_story w i")
  show ?case
  proof (cases r)
    case (Inl e)
    with s Cons.prems show ?thesis by simp
  next
    case (Inr ds')
    with s have "length ds' \<le> 1" using run_story_at_most_one [of w i ds'] by simp
    moreover from s Inr Cons.prems have "snd (run_loop w ids (tr @ evs) (arts @ ds')) = Inr ds"
      by simp
    from Cons.IH [OF this] have "length ds \<le> length arts + length ds' + length ids" by simp
    ultimately show ?thesis by simp
  qed
qed

lemma concat_full_iff:
  assumes "\<And>x. length (f x) \<le> 1"
  shows "length (concat (map f xs)) \<le> length xs \<and>
         (length (concat (map f xs)) = length xs \<longleftrightarrow> (\<forall>x\<in>set xs. f x \<noteq> []))"
proof (induction xs)
  case Nil
  then show ?case by simp
next
  case (Cons x xs)
  have "length (f x) = 0 \<or> length (f x) = 1" using assms [of x] by arith
  with Cons show ?case by auto
qed




lemma run_reaches:
  assumes "topstories w = Inr ids" and "py_slice_to ids top_k = before @ i # rest"
    and "run_loop w before [GetTopstories] [] = (tr, Inr arts)"
  shows "HackernewsNewestFetcher_run w top_k =
     (case run_story w i of
        (evs, Inl e) \<Rightarrow> (tr @ evs, Inl e)
      | (evs, Inr ds) \<Rightarrow> run_loop w rest (tr @ evs) (arts @ ds))"
  using assms by (simp add: HackernewsNewestFetcher_run_def run_loop_append)

lemma run_story_failed_download:
  assumes "item w i = Inr post" and "py_in ''url'' post = Inr True"
    and "fetch_and_convert w post = (evs, Inl e)"
  shows "run_story w i = (GetItem i # evs @ [PrintSkipped i], Inr [])"
  using assms by (simp add: run_story_def)



subsection \<open>Failures of single stories\<close>




text \<open>
  C4. When the run of the fetch-and-convert sub-pipeline for a story record with a
  \<open>url\<close> fails in any way (the pipeline raises, its output lacks the converter's
  documents, or the list of documents is empty), the run prints a skip notice, leaves
  the articles as they were, and goes on with the remaining identifiers. With an index
  of one failing and one succeeding record and \<open>top_k = 2\<close>, the result is exactly
  the document of the succeeding record.
\<close>

theorem failed_download_is_skipped:
  "(topstories w = Inr ids \<and> py_slice_to ids top_k = before @ i # rest \<and>
    run_loop w before [GetTopstories] [] = (tr, Inr arts) \<and>
    item w i = Inr post \<and> py_in ''url'' post = Inr True \<and>
    fetch_and_convert w post = (evs, Inl e) \<longrightarrow>
      HackernewsNewestFetcher_run w top_k =
        run_loop w rest (tr @ GetItem i # evs @ [PrintSkipped i]) arts) \<and>
   (topstories w' = Inr [a, b] \<and>
    item w' a = Inr post_a \<and> py_in ''url'' post_a = Inr True \<and>
    fetch_and_convert w' post_a = (evs_a, Inl e_a) \<and>
    run_story w' b = (evs_b, Inr [d]) \<longrightarrow>
      HackernewsNewestFetcher_run w' 2 =
        (GetTopstories # GetItem a # evs_a @ PrintSkipped a # evs_b, Inr [d]))"
proof (intro conjI impI)
  assume h: "topstories w = Inr ids \<and> py_slice_to ids top_k = before @ i # rest \<and>
    run_loop w before [GetTopstories] [] = (tr, Inr arts) \<and>
    item w i = Inr post \<and> py_in ''url'' post = Inr True \<and>
    fetch_and_convert w post = (evs, Inl e)"
  then have "run_story w i = (GetItem i # evs @ [PrintSkipped i], Inr [])"
    by (simp add: run_story_failed_download)
  with h show "HackernewsNewestFetcher_run w top_k =
        run_loop w rest (tr @ GetItem i # evs @ [PrintSkipped i]) arts"
    using run_reaches [of w ids top_k before i rest tr arts] by simp
next
  assume h: "topstories w' = Inr [a, b] \<and>
    item w' a = Inr post_a \<and> py_in ''url'' post_a = Inr True \<and>
    fetch_and_convert w' post_a = (evs_a, Inl e_a) \<and>
    run_story w' b = (evs_b, Inr [d])"
  then have "run_story w' a = (GetItem a # evs_a @ [PrintSkipped a], Inr [])"
    by (simp add: run_story_failed_download)
  with h show "HackernewsNewestFetcher_run w' 2 =
        (GetTopstories # GetItem a # evs_a @ PrintSkipped a # evs_b, Inr [d])"
    by (simp add: HackernewsNewestFetcher_run_def py_slice_to_def)
qed

theorem failed_download_is_skipped_witness:
  "HackernewsNewestFetcher_run flaky_world 2 =
     run_loop flaky_world [JNum 202]
       ([GetTopstories] @
        GetItem (JNum 201) # [RunPipeline (JStr ''http://down.example'')] @ [PrintSkipped (JNum 201)])
       [] \<and>
   HackernewsNewestFetcher_run flaky_world 2 =
     ([GetTopstories,
       GetItem (JNum 201), RunPipeline (JStr ''http://down.example''), PrintSkipped (JNum 201),
       GetItem (JNum 202), RunPipeline (JStr ''http://up.example'')],
      Inr [\<lparr>content = JStr ''page text'', meta = [(''url'', JStr ''http://up.example'')]\<rparr>])"
proof
  have idx: "topstories flaky_world = Inr [JNum 201, JNum 202]"
    by (simp add: flaky_world_def)
  have sl: "py_slice_to [JNum 201, JNum 202] 2 = [] @ JNum 201 # [JNum 202]"
    by (simp add: py_slice_to_def)
  have pre: "run_loop flaky_world [] [GetTopstories] [] = ([GetTopstories], Inr [])"
    by simp
  have a: "item flaky_world (JNum 201) = Inr (url_story ''down'' ''http://down.example'')"
    by (simp add: flaky_world_def)
  have ua: "py_in ''url'' (url_story ''down'' ''http://down.example'') = Inr True"
    by (simp add: py_in_def url_story_def)
  have fa: "fetch_and_convert flaky_world (url_story ''down'' ''http://down.example'') =
      ([RunPipeline (JStr ''http://down.example'')], Inl (Raised ''ConnectTimeout''))"
    by (simp add: fetch_and_convert_def py_getitem_def url_story_def flaky_world_def)
  have b: "run_story flaky_world (JNum 202) =
      ([GetItem (JNum 202), RunPipeline (JStr ''http://up.example'')],
       Inr [\<lparr>content = JStr ''page text'', meta = [(''url'', JStr ''http://up.example'')]\<rparr>])"
    by (simp add: run_story_def fetch_and_convert_def py_getitem_def py_in_def url_story_def
        flaky_world_def converted_def)
  from failed_download_is_skipped [THEN conjunct1, rule_format,
      OF conjI [OF idx conjI [OF sl conjI [OF pre conjI [OF a conjI [OF ua fa]]]]]]
  show "HackernewsNewestFetcher_run flaky_world 2 =
     run_loop flaky_world [JNum 202]
       ([GetTopstories] @
        GetItem (JNum 201) # [RunPipeline (JStr ''http://down.example'')] @ [PrintSkipped (JNum 201)])
       []" .
  from failed_download_is_skipped [THEN conjunct2, rule_format,
      OF conjI [OF idx conjI [OF a conjI [OF ua conjI [OF fa b]]]]]
  show "HackernewsNewestFetcher_run flaky_world 2 =
     ([GetTopstories,
       GetItem (JNum 201), RunPipeline (JStr ''http://down.example''), PrintSkipped (JNum 201),
       GetItem (JNum 202), RunPipeline (JStr ''http://up.example'')],
      Inr [\<lparr>content = JStr ''page text'', meta = [(''url'', JStr ''http://up.example'')]\<rparr>])"
    by simp
qed



text \<open>
  C7. For a story record with neither a \<open>url\<close> nor a \<open>text\<close> field, the pass of the
  loop only requests the record: no document is appended, nothing is raised, nothing
  is printed, and the run goes on with the remaining identifiers.
\<close>

theorem story_without_url_or_text_is_silent:
  "topstories w = Inr ids \<Longrightarrow> py_slice_to ids top_k = before @ i # rest \<Longrightarrow>
   run_loop w before [GetTopstories] [] = (tr, Inr arts) \<Longrightarrow>
   item w i = Inr (JObj kvs) \<Longrightarrow> map_of kvs ''url'' = None \<Longrightarrow> map_of kvs ''text'' = None \<Longrightarrow>
     HackernewsNewestFetcher_run w top_k = run_loop w rest (tr @ [GetItem i]) arts"
proof -
  assume idx: "topstories w = Inr ids" and sl: "py_slice_to ids top_k = before @ i # rest"
    and pre: "run_loop w before [GetTopstories] [] = (tr, Inr arts)"
    and it: "item w i = Inr (JObj kvs)" and nu: "map_of kvs ''url'' = None"
    and nt: "map_of kvs ''text'' = None"
  from it nu nt have "run_story w i = ([GetItem i], Inr [])"
    by (simp add: run_story_def py_in_def)
  with run_reaches [OF idx sl pre] show ?thesis by simp
qed

theorem story_without_url_or_text_is_silent_witness:
  "HackernewsNewestFetcher_run poll_world 5 = ([GetTopstories, GetItem (JNum 301)], Inr [])"
proof -
  have idx: "topstories poll_world = Inr [JNum 301]"
    by (simp add: poll_world_def)
  have sl: "py_slice_to [JNum 301] 5 = [] @ JNum 301 # []"
    by (simp add: py_slice_to_def)
  have pre: "run_loop poll_world [] [GetTopstories] [] = ([GetTopstories], Inr [])"
    by simp
  have it: "item poll_world (JNum 301) =
      Inr (JObj [(''title'', JStr ''a poll''), (''type'', JStr ''poll'')])"
    by (simp add: poll_world_def)
  from story_without_url_or_text_is_silent [OF idx sl pre it]
  show ?thesis by simp
qed

subsection \<open>The slice of the index\<close>

text \<open>
  C2, as stated, fails for a negative \<open>top_k\<close>: \<open>[0:-1]\<close> keeps all identifiers but
  the last, and their records are requested and turned into documents.
\<close>

theorem negative_top_k_fetches_stories:
  "(-1::int) \<le> 0 \<and>
   HackernewsNewestFetcher_run text_world (-1) =
     ([GetTopstories, GetItem (JNum 101), PrintTextIn (JNum 101),
       GetItem (JNum 102), PrintTextIn (JNum 102)],
      Inr [\<lparr>content = JStr ''alpha'', meta = [(''title'', JStr ''first'')]\<rparr>,
           \<lparr>content = JStr ''beta'', meta = [(''title'', JStr ''second'')]\<rparr>])"
  by (simp add: text_world_def text_story_def HackernewsNewestFetcher_run_def py_slice_to_def
      run_story_def py_in_def py_getitem_def inline_document_def Document_init_def)

text \<open>
  C2, amended. When the index request succeeds: for \<open>top_k = 0\<close>, and for a negative
  \<open>top_k\<close> whose magnitude is at least the length of the index, the run performs the
  index request, no request of a story record, and returns the empty list. For any
  negative \<open>top_k\<close> the loop walks the index without its last \<open>-top_k\<close> identifiers.
\<close>

theorem run_nonpositive_top_k:
  "topstories w = Inr ids \<Longrightarrow>
     ((top_k = 0 \<or> (top_k < 0 \<and> int (length ids) \<le> - top_k)) \<longrightarrow>
        HackernewsNewestFetcher_run w top_k = ([GetTopstories], Inr [])) \<and>
     (top_k < 0 \<longrightarrow>
        HackernewsNewestFetcher_run w top_k =
          run_loop w (take (length ids - nat (- top_k)) ids) [GetTopstories] [])"
proof (intro conjI impI)
  assume idx: "topstories w = Inr ids"
  {
    assume "top_k = 0 \<or> (top_k < 0 \<and> int (length ids) \<le> - top_k)"
    then have "py_slice_to ids top_k = []" by (auto simp: py_slice_to_def)
    with idx show "HackernewsNewestFetcher_run w top_k = ([GetTopstories], Inr [])"
      by (simp add: HackernewsNewestFetcher_run_def)
  next
    assume "top_k < 0"
    then have "nat (int (length ids) + top_k) = length ids - nat (- top_k)" by arith
    with \<open>top_k < 0\<close> have "py_slice_to ids top_k = take (length ids - nat (- top_k)) ids"
      by (simp add: py_slice_to_def)
    with idx show "HackernewsNewestFetcher_run w top_k =
          run_loop w (take (length ids - nat (- top_k)) ids) [GetTopstories] []"
      by (simp add: HackernewsNewestFetcher_run_def)
  }
qed

theorem run_nonpositive_top_k_witness:
  "HackernewsNewestFetcher_run text_world 0 = ([GetTopstories], Inr []) \<and>
   HackernewsNewestFetcher_run text_world (-3) = ([GetTopstories], Inr []) \<and>
   HackernewsNewestFetcher_run text_world (-2) = run_loop text_world [JNum 101] [GetTopstories] []"
proof -
  have idx: "topstories text_world = Inr [JNum 101, JNum 102, JNum 103]"
    by (simp add: text_world_def)
  from run_nonpositive_top_k [OF idx, of 0] run_nonpositive_top_k [OF idx, of "-3"]
    run_nonpositive_top_k [OF idx, of "-2"]
  show ?thesis by simp
qed

text \<open>
  C3, as stated, fails for a negative \<open>top_k\<close>: with three identifiers and
  \<open>top_k = -2\<close> one document is returned, and one is more than \<open>-2\<close>.
\<close>

theorem negative_top_k_exceeds_bound:
  "snd (HackernewsNewestFetcher_run text_world (-2)) =
     Inr [\<lparr>content = JStr ''alpha'', meta = [(''title'', JStr ''first'')]\<rparr>] \<and>
   \<not> int (length [\<lparr>content = JStr ''alpha'', meta = [(''title'', JStr ''first'')]\<rparr>]) \<le> -2"
  by (simp add: text_world_def text_story_def HackernewsNewestFetcher_run_def py_slice_to_def
      run_story_def py_in_def py_getitem_def inline_document_def Document_init_def)

text \<open>
  C3, amended. The number of documents returned is at most the number of identifiers
  in the slice \<open>[0:top_k]\<close>: at most \<open>top_k\<close> when \<open>top_k\<close> is not negative, and at
  most \<open>max 0 (length of the index + top_k)\<close> when it is negative.
\<close>

theorem documents_at_most_slice:
  "topstories w = Inr ids \<Longrightarrow> snd (HackernewsNewestFetcher_run w top_k) = Inr docs \<Longrightarrow>
     length docs \<le> length (py_slice_to ids top_k) \<and>
     (0 \<le> top_k \<longrightarrow> int (length docs) \<le> top_k) \<and>
     (top_k < 0 \<longrightarrow> int (length docs) \<le> max 0 (int (length ids) + top_k))"
proof -
  assume idx: "topstories w = Inr ids"
    and ok: "snd (HackernewsNewestFetcher_run w top_k) = Inr docs"
  from idx ok have "snd (run_loop w (py_slice_to ids top_k) [GetTopstories] []) = Inr docs"
    by (simp add: HackernewsNewestFetcher_run_def)
  from run_loop_length [OF this] have le: "length docs \<le> length (py_slice_to ids top_k)"
    by simp
  moreover have "0 \<le> top_k \<longrightarrow> int (length (py_slice_to ids top_k)) \<le> top_k"
    by (auto simp: py_slice_to_def)
  moreover have "top_k < 0 \<longrightarrow>
      int (length (py_slice_to ids top_k)) \<le> max 0 (int (length ids) + top_k)"
    by (auto simp: py_slice_to_def)
  ultimately show ?thesis by linarith
qed

theorem documents_at_most_slice_witness:
  "int (length [\<lparr>content = JStr ''delta'', meta = [(''title'', JStr ''fourth'')]\<rparr>]) \<le> 10 \<and>
   int (length [\<lparr>content = JStr ''alpha'', meta = [(''title'', JStr ''first'')]\<rparr>]) \<le>
     max 0 (int (length [JNum 101, JNum 102, JNum 103]) + (-2))"
proof
  have idx: "topstories rough_world = Inr [JNum 101, JNum 102, JNum 103, JNum 104]"
    by (simp add: rough_world_def)
  have ok: "snd (HackernewsNewestFetcher_run rough_world 10) =
      Inr [\<lparr>content = JStr ''delta'', meta = [(''title'', JStr ''fourth'')]\<rparr>]"
    by (simp add: rough_world_def text_story_def url_story_def HackernewsNewestFetcher_run_def
        py_slice_to_def run_story_def py_in_def py_getitem_def inline_document_def
        Document_init_def fetch_and_convert_def)
  from documents_at_most_slice [OF idx ok]
  show "int (length [\<lparr>content = JStr ''delta'', meta = [(''title'', JStr ''fourth'')]\<rparr>]) \<le> 10"
    by simp
next
  have idx: "topstories text_world = Inr [JNum 101, JNum 102, JNum 103]"
    by (simp add: text_world_def)
  have ok: "snd (HackernewsNewestFetcher_run text_world (-2)) =
      Inr [\<lparr>content = JStr ''alpha'', meta = [(''title'', JStr ''first'')]\<rparr>]"
    by (simp add: text_world_def text_story_def HackernewsNewestFetcher_run_def py_slice_to_def
        run_story_def py_in_def py_getitem_def inline_document_def Document_init_def)
  from documents_at_most_slice [OF idx ok]
  show "int (length [\<lparr>content = JStr ''alpha'', meta = [(''title'', JStr ''first'')]\<rparr>]) \<le>
     max 0 (int (length [JNum 101, JNum 102, JNum 103]) + (-2))"
    by simp
qed

text \<open>
  C6, as stated, fails: with \<open>top_k\<close> beyond the length of the index, a story that is
  omitted makes the result shorter than the index.
\<close>

theorem skipped_story_shortens_result:
  "topstories poll_world = Inr [JNum 301] \<and> int (length [JNum 301]) < 5 \<and>
   snd (HackernewsNewestFetcher_run poll_world 5) = Inr [] \<and>
   length ([] :: Document list) \<noteq> length [JNum 301]"
  by (simp add: poll_world_def HackernewsNewestFetcher_run_def py_slice_to_def run_story_def
      py_in_def)

text \<open>
  C6, amended. For every \<open>top_k\<close> greater than the length of the index, the loop walks
  the whole index; when the run returns, one story record was requested for each
  identifier of the index, the number of documents is at most the length of the
  index, and it equals that length exactly when every story yields a document.
\<close>

theorem top_k_beyond_index:
  "topstories w = Inr ids \<Longrightarrow> int (length ids) < top_k \<Longrightarrow>
     HackernewsNewestFetcher_run w top_k = run_loop w ids [GetTopstories] [] \<and>
     (\<forall>docs. snd (HackernewsNewestFetcher_run w top_k) = Inr docs \<longrightarrow>
        item_requests (fst (HackernewsNewestFetcher_run w top_k)) = ids \<and>
        length docs \<le> length ids \<and>
        (length docs = length ids \<longleftrightarrow> (\<forall>i\<in>set ids. story_documents w i \<noteq> [])))"
proof -
  assume idx: "topstories w = Inr ids" and big: "int (length ids) < top_k"
  from big have "py_slice_to ids top_k = ids" by (simp add: py_slice_to_def)
  with idx have r: "HackernewsNewestFetcher_run w top_k = run_loop w ids [GetTopstories] []"
    by (simp add: HackernewsNewestFetcher_run_def)
  have "item_requests (fst (run_loop w ids [GetTopstories] [])) = ids \<and>
        length docs \<le> length ids \<and>
        (length docs = length ids \<longleftrightarrow> (\<forall>i\<in>set ids. story_documents w i \<noteq> []))"
    if ok: "snd (run_loop w ids [GetTopstories] []) = Inr docs" for docs
  proof -
    from run_loop_documents [OF ok] have d: "docs = concat (map (story_documents w) ids)"
      by simp
    from run_loop_requests_ok [OF ok] have "item_requests (fst (run_loop w ids [GetTopstories] [])) = ids"
      by simp
    with d concat_full_iff [of "story_documents w" ids, OF story_documents_at_most_one]
    show ?thesis by simp
  qed
  with r show ?thesis by simp
qed

theorem top_k_beyond_index_witness:
  "item_requests (fst (HackernewsNewestFetcher_run text_world 7)) = [JNum 101, JNum 102, JNum 103] \<and>
   length [\<lparr>content = JStr ''alpha'', meta = [(''title'', JStr ''first'')]\<rparr>,
           \<lparr>content = JStr ''beta'', meta = [(''title'', JStr ''second'')]\<rparr>,
           \<lparr>content = JStr ''gamma'', meta = [(''title'', JStr ''third'')]\<rparr>] =
     length [JNum 101, JNum 102, JNum 103] \<and>
   story_documents text_world (JNum 101) \<noteq> [] \<and>
   story_documents text_world (JNum 102) \<noteq> [] \<and>
   story_documents text_world (JNum 103) \<noteq> []"
proof -
  have idx: "topstories text_world = Inr [JNum 101, JNum 102, JNum 103]"
    by (simp add: text_world_def)
  have big: "int (length [JNum 101, JNum 102, JNum 103]) < 7"
    by simp
  have ok: "snd (HackernewsNewestFetcher_run text_world 7) =
      Inr [\<lparr>content = JStr ''alpha'', meta = [(''title'', JStr ''first'')]\<rparr>,
           \<lparr>content = JStr ''beta'', meta = [(''title'', JStr ''second'')]\<rparr>,
           \<lparr>content = JStr ''gamma'', meta = [(''title'', JStr ''third'')]\<rparr>]"
    by (simp add: text_world_def text_story_def HackernewsNewestFetcher_run_def py_slice_to_def
        run_story_def py_in_def py_getitem_def inline_document_def Document_init_def)
  from top_k_beyond_index [OF idx big, THEN conjunct2, rule_format, OF ok]
  show ?thesis by simp
qed

text \<open>
  C8. Story records are requested only for identifiers of the slice \<open>[0:top_k]\<close> of
  the index, in its order, which for \<open>top_k \<ge> 0\<close> is the first \<open>top_k\<close> identifiers;
  when the run returns, exactly these were requested, and the documents returned are
  those of the identifiers in the order they were processed.
\<close>

theorem requests_follow_slice:
  "topstories w = Inr ids \<Longrightarrow>
     prefix (item_requests (fst (HackernewsNewestFetcher_run w top_k))) (py_slice_to ids top_k) \<and>
     (0 \<le> top_k \<longrightarrow> py_slice_to ids top_k = take (nat top_k) ids) \<and>
     (\<forall>docs. snd (HackernewsNewestFetcher_run w top_k) = Inr docs \<longrightarrow>
        item_requests (fst (HackernewsNewestFetcher_run w top_k)) = py_slice_to ids top_k \<and>
        docs = concat (map (story_documents w) (py_slice_to ids top_k)))"
proof -
  assume idx: "topstories w = Inr ids"
  then have r: "HackernewsNewestFetcher_run w top_k =
      run_loop w (py_slice_to ids top_k) [GetTopstories] []"
    by (simp add: HackernewsNewestFetcher_run_def)
  have "prefix (item_requests (fst (HackernewsNewestFetcher_run w top_k))) (py_slice_to ids top_k)"
    unfolding r using run_loop_requests_prefix [of w "py_slice_to ids top_k" "[GetTopstories]" "[]"]
    by simp
  moreover have "0 \<le> top_k \<longrightarrow> py_slice_to ids top_k = take (nat top_k) ids"
    by (simp add: py_slice_to_def)
  moreover have "item_requests (fst (HackernewsNewestFetcher_run w top_k)) = py_slice_to ids top_k \<and>
        docs = concat (map (story_documents w) (py_slice_to ids top_k))"
    if "snd (HackernewsNewestFetcher_run w top_k) = Inr docs" for docs
  proof -
    from that r have ok: "snd (run_loop w (py_slice_to ids top_k) [GetTopstories] []) = Inr docs"
      by simp
    from run_loop_requests_ok [OF ok] run_loop_documents [OF ok] r show ?thesis by simp
  qed
  ultimately show ?thesis by blast
qed

theorem requests_follow_slice_witness:
  "item_requests (fst (HackernewsNewestFetcher_run text_world 2)) = [JNum 101, JNum 102] \<and>
   JNum 103 \<notin> set (item_requests (fst (HackernewsNewestFetcher_run text_world 2))) \<and>
   snd (HackernewsNewestFetcher_run text_world 2) =
     Inr (story_documents text_world (JNum 101) @ story_documents text_world (JNum 102))"
proof -
  have idx: "topstories text_world = Inr [JNum 101, JNum 102, JNum 103]"
    by (simp add: text_world_def)
  have ok: "snd (HackernewsNewestFetcher_run text_world 2) =
      Inr [\<lparr>content = JStr ''alpha'', meta = [(''title'', JStr ''first'')]\<rparr>,
           \<lparr>content = JStr ''beta'', meta = [(''title'', JStr ''second'')]\<rparr>]"
    by (simp add: text_world_def text_story_def HackernewsNewestFetcher_run_def py_slice_to_def
        run_story_def py_in_def py_getitem_def inline_document_def Document_init_def)
  have sl: "py_slice_to [JNum 101, JNum 102, JNum 103] 2 = [JNum 101, JNum 102]"
    by (simp add: py_slice_to_def)
  from requests_follow_slice [OF idx, of 2, THEN conjunct2, THEN conjunct2, rule_format, OF ok]
  have "item_requests (fst (HackernewsNewestFetcher_run text_world 2)) = [JNum 101, JNum 102]"
    and "[\<lparr>content = JStr ''alpha'', meta = [(''title'', JStr ''first'')]\<rparr>,
           \<lparr>content = JStr ''beta'', meta = [(''title'', JStr ''second'')]\<rparr>] =
         story_documents text_world (JNum 101) @ story_documents text_world (JNum 102)"
    unfolding sl by simp_all
  with ok show ?thesis by simp
qed

end
